theory Spec2Isabelle
  imports Main
begin

section \<open>Shared vocabulary\<close>

text \<open>
  A Mongoose collection is a list of documents in natural order. \<open>findOne\<close> returns the
  position of the first document that satisfies the query; the position stands for the
  document handle, so that \<open>doc.save()\<close> is the list update at that position.
  A \<open>Date\<close> is its number of milliseconds (an integer); \<open>new Date()\<close> is the
  parameter \<open>now\<close> of the operation that reads the clock. A JavaScript \<open>Number\<close>
  holding a count or a price is an \<open>int\<close>. An \<open>ObjectId\<close> is a natural number.
  Failures of the database connection itself are outside the model; validation and
  unique-index failures of \<open>save\<close> are in it.
\<close>

type_synonym oid = nat

fun findOne :: "('a \<Rightarrow> bool) \<Rightarrow> 'a list \<Rightarrow> nat option" where
  "findOne q [] = None"
| "findOne q (d # ds) =
     (if q d then Some 0
      else (case findOne q ds of None \<Rightarrow> None | Some i \<Rightarrow> Some (Suc i)))"

text \<open>\<open>String.prototype.toUpperCase\<close> on ASCII text.\<close>

definition toUpper_char :: "char \<Rightarrow> char" where
  "toUpper_char c =
     (let n = (of_char c :: nat) in if 97 \<le> n \<and> n \<le> 122 then char_of (n - 32) else c)"

definition toUpperCase :: "string \<Rightarrow> string" where
  "toUpperCase s = map toUpper_char s"

text \<open>Every error the models throw or \<open>save\<close> rejects with, by its message.\<close>

datatype error =
    Insufficient_stock string int
  | Invalid_code
  | Code_has_expired
  | Code_usage_limit_reached
  | ValidationError string
  | DuplicateKey string

section \<open>Stock (models/Stock.js)\<close>

datatype itemType = Flavor | Topping

record stock_doc =
  itemType :: itemType
  name :: string
  quantity :: int
  reorderLevel :: int
  isActive :: bool

text \<open>
  \<open>reduceStock(itemType, name, amount = 1)\<close>: the result is the promise's outcome
  (\<open>Inl\<close> a thrown error, \<open>Inr None\<close> the value \<open>null\<close>, \<open>Inr (Some s)\<close> the saved
  document) together with the collection afterwards.
\<close>

definition reduceStock ::
  "itemType \<Rightarrow> string \<Rightarrow> int \<Rightarrow> stock_doc list \<Rightarrow> (error + stock_doc option) \<times> stock_doc list" where
  "reduceStock ty nm amount db =
     (case findOne (\<lambda>s. itemType s = ty \<and> stock_doc.name s = nm) db of
        None \<Rightarrow> (Inr None, db)
      | Some i \<Rightarrow>
          (let stock = db ! i in
           if quantity stock < amount
           then (Inl (Insufficient_stock nm (quantity stock)), db)
           else (let stock' = stock\<lparr>quantity := quantity stock - amount\<rparr>
                 in (Inr (Some stock'), db[i := stock']))))"

text \<open>The call with the parameter \<open>amount\<close> left out.\<close>

definition reduceStock_default ::
  "itemType \<Rightarrow> string \<Rightarrow> stock_doc list \<Rightarrow> (error + stock_doc option) \<times> stock_doc list" where
  "reduceStock_default ty nm db = reduceStock ty nm 1 db"

text \<open>
  \<open>getLowStockItems\<close> exists in two variants of models/Stock.js: the model with the
  \<open>isActive\<close> flag compares with \<open>$lt\<close>, the model without it compares with \<open>$lte\<close>.
\<close>

definition getLowStockItems :: "stock_doc list \<Rightarrow> stock_doc list" where
  "getLowStockItems db = filter (\<lambda>s. quantity s < reorderLevel s) db"

definition getLowStockItems_lte :: "stock_doc list \<Rightarrow> stock_doc list" where
  "getLowStockItems_lte db = filter (\<lambda>s. quantity s \<le> reorderLevel s) db"

section \<open>Menu codes (models/MenuCode.js)\<close>

datatype cup = S | M | L

record menu_code_doc =
  code :: string
  cupSize :: cup
  usageCount :: int
  maxUsage :: int
  createdBy :: oid
  usedBy :: "(oid \<times> int) list"
  expiresAt :: int

text \<open>
  \<open>validateAndUse(code, orderId)\<close>. An entry of \<open>usedBy\<close> is the pair of the order and
  its \<open>usedAt\<close>. Both reads of the clock in one call are the same \<open>now\<close>.
\<close>

definition validateAndUse ::
  "int \<Rightarrow> string \<Rightarrow> oid \<Rightarrow> menu_code_doc list \<Rightarrow> (error + menu_code_doc) \<times> menu_code_doc list" where
  "validateAndUse now c orderRef db =
     (case findOne (\<lambda>m. code m = toUpperCase c) db of
        None \<Rightarrow> (Inl Invalid_code, db)
      | Some i \<Rightarrow>
          (let menuCode = db ! i in
           if expiresAt menuCode < now then (Inl Code_has_expired, db)
           else if usageCount menuCode \<ge> maxUsage menuCode
           then (Inl Code_usage_limit_reached, db)
           else (let menuCode' = menuCode\<lparr>usageCount := usageCount menuCode + 1,
                                           usedBy := usedBy menuCode @ [(orderRef, now)]\<rparr>
                 in (Inr menuCode', db[i := menuCode']))))"

text \<open>\<open>canBeUsed()\<close>: \<open>Inl reason\<close> is \<open>{valid: false, reason}\<close>, \<open>Inr n\<close> is
  \<open>{valid: true, remainingUses: n}\<close>.\<close>

definition canBeUsed :: "int \<Rightarrow> menu_code_doc \<Rightarrow> error + int" where
  "canBeUsed now this =
     (if expiresAt this < now then Inl Code_has_expired
      else if usageCount this \<ge> maxUsage this then Inl Code_usage_limit_reached
      else Inr (maxUsage this - usageCount this))"

text \<open>\<open>cleanupExpired()\<close>: the \<open>deletedCount\<close> and the collection afterwards.\<close>

definition cleanupExpired :: "int \<Rightarrow> menu_code_doc list \<Rightarrow> nat \<times> menu_code_doc list" where
  "cleanupExpired now db =
     (length (filter (\<lambda>m. usageCount m = 0 \<and> expiresAt m < now) db),
      filter (\<lambda>m. \<not> (usageCount m = 0 \<and> expiresAt m < now)) db)"

text \<open>
  A sequence of redemptions, each with its own clock reading, code and order, applied to
  the collection one after the other; the outcomes are collected in order.
\<close>

fun redeem_seq ::
  "(int \<times> string \<times> oid) list \<Rightarrow> menu_code_doc list \<Rightarrow> (error + menu_code_doc) list \<times> menu_code_doc list" where
  "redeem_seq [] db = ([], db)"
| "redeem_seq ((now, c, orderRef) # rs) db =
     (let r = validateAndUse now c orderRef db;
          rest = redeem_seq rs (snd r)
      in (fst r # fst rest, snd rest))"

section \<open>Orders (models/Order.js)\<close>

record shavedIce_sub =
  flavor :: string
  points :: int

record topping_sub =
  name :: string
  points :: int

text \<open>\<open>pricing.total\<close> is required and has no default: it is undefined (\<open>None\<close>) until
  \<open>calculateTotal\<close> has run.\<close>

record pricing_sub =
  basePrice :: int
  sizePrice :: int
  toppingsPrice :: int
  total' :: "int option"

datatype order_status = Pending | Preparing | Ready | Completed | Cancelled

datatype payment_status = Unpaid | Paid | Refunded

record timestamps_sub =
  ordered :: int
  prepared :: "int option"
  ready :: "int option"
  completed :: "int option"

record order_doc =
  ident :: oid
  orderId :: "string option"
  customerId :: "oid option"
  menuCode :: string
  customerCode :: string
  cupSize :: cup
  shavedIce :: shavedIce_sub
  toppings :: "topping_sub list"
  pricing :: pricing_sub
  status :: order_status
  paymentStatus :: payment_status
  specialInstructions :: string
  timestamps :: timestamps_sub
  isFreeDrink :: bool

definition sizePrices :: "cup \<Rightarrow> int" where
  "sizePrices c = (case c of S \<Rightarrow> 0 | M \<Rightarrow> 10 | L \<Rightarrow> 20)"

text \<open>
  \<open>calculateTotal()\<close>: the returned total and the order with its pricing updated.
  \<open>basePrice || 60\<close> replaces a base price of 0 by 60. Nothing in the body can throw.
\<close>

definition calculateTotal :: "order_doc \<Rightarrow> int \<times> order_doc" where
  "calculateTotal this =
     (let total0 = (if basePrice (pricing this) = 0 then 60 else basePrice (pricing this));
          sizePrice0 = sizePrices (order_doc.cupSize this);
          total1 = total0 + sizePrice0;
          toppingsPrice0 = int (length (toppings this)) * 10;
          total2 = total1 + toppingsPrice0;
          p = (pricing this)\<lparr>sizePrice := sizePrice0, toppingsPrice := toppingsPrice0,
                              total' := Some total2\<rparr>
      in if isFreeDrink this
         then (0, this\<lparr>pricing := p\<lparr>total' := Some 0\<rparr>\<rparr>)
         else (total2, this\<lparr>pricing := p\<rparr>))"

text \<open>The enum of \<open>status\<close>, which \<open>save\<close> validates a status string against.\<close>

definition status_of_string :: "string \<Rightarrow> order_status option" where
  "status_of_string s =
     (if s = ''Pending'' then Some Pending
      else if s = ''Preparing'' then Some Preparing
      else if s = ''Ready'' then Some Ready
      else if s = ''Completed'' then Some Completed
      else if s = ''Cancelled'' then Some Cancelled
      else None)"

definition statusTimestamps :: "int \<Rightarrow> order_status \<Rightarrow> timestamps_sub \<Rightarrow> timestamps_sub" where
  "statusTimestamps now st ts =
     (case st of
        Preparing \<Rightarrow> ts\<lparr>prepared := Some now\<rparr>
      | Ready \<Rightarrow> ts\<lparr>ready := Some now\<rparr>
      | Completed \<Rightarrow> ts\<lparr>completed := Some now\<rparr>
      | _ \<Rightarrow> ts)"

text \<open>
  \<open>updateStatus(newStatus)\<close>: assigns the status, stamps the matching timestamp and
  saves; \<open>save\<close> rejects a string outside the enum with a validation error.
\<close>

definition updateStatus :: "int \<Rightarrow> string \<Rightarrow> order_doc \<Rightarrow> error + order_doc" where
  "updateStatus now newStatus this =
     (case status_of_string newStatus of
        None \<Rightarrow> Inl (ValidationError ''status'')
      | Some st \<Rightarrow>
          Inr (this\<lparr>status := st, timestamps := statusTimestamps now st (timestamps this)\<rparr>))"

text \<open>\<open>PUT /api/orders/admin/:orderId/status\<close> (routes/orders.js), after the admin check.\<close>

datatype status_response =
    Status_updated order_doc
  | Order_not_found
  | Status_failed

definition put_order_status ::
  "int \<Rightarrow> oid \<Rightarrow> string \<Rightarrow> order_doc list \<Rightarrow> status_response \<times> order_doc list" where
  "put_order_status now orderRef newStatus db =
     (case findOne (\<lambda>ord. ident ord = orderRef) db of
        None \<Rightarrow> (Order_not_found, db)
      | Some i \<Rightarrow>
          (case updateStatus now newStatus (db ! i) of
             Inl e \<Rightarrow> (Status_failed, db)
           | Inr ord \<Rightarrow> (Status_updated ord, db[i := ord])))"

section \<open>Users\<close>

record loyaltyCard_sub =
  stamps :: int
  totalFreeDrinks :: int

record user_doc =
  user_ident :: oid
  loyaltyPoints :: int
  loyaltyCard :: loyaltyCard_sub
  orderHistory :: "oid list"

text \<open>
  Modelled from the spec: models/User.js is not among the sources. The loyalty counter
  increments the stamp count by 1; when the count reaches the threshold 10 it resets to 0,
  increments the number of free redemptions and signals "earned free order".
\<close>

definition addLoyaltyStamp :: "user_doc \<Rightarrow> bool \<times> user_doc" where
  "addLoyaltyStamp this =
     (let card = loyaltyCard this; n = stamps card + 1 in
      if n \<ge> 10
      then (True, this\<lparr>loyaltyCard := card\<lparr>stamps := 0,
                                             totalFreeDrinks := totalFreeDrinks card + 1\<rparr>\<rparr>)
      else (False, this\<lparr>loyaltyCard := card\<lparr>stamps := n\<rparr>\<rparr>))"

section \<open>Order creation (routes/orders.js)\<close>

text \<open>
  The request: the four body fields the handler reads, any cup size the client may have
  put in the body, and \<open>req.user\<close> as set by \<open>optionalAuth\<close>.
\<close>

record order_request =
  body_menuCode :: string
  body_shavedIce :: shavedIce_sub
  body_toppings :: "topping_sub list"
  body_specialInstructions :: "string option"
  body_cupSize :: "string option"
  req_user :: "oid option"

text \<open>
  What the handler takes from its environment: the clock, the random customer code, the
  \<open>ObjectId\<close> of the new document and the \<open>orderId\<close> that the pre-save hook generates.
\<close>

record order_env =
  env_now :: int
  env_customerCode :: string
  env_ident :: oid
  env_orderId :: string

record store =
  menuCodes :: "menu_code_doc list"
  orders :: "order_doc list"
  users :: "user_doc list"
  stocks :: "stock_doc list"

datatype create_response =
    Created order_doc string bool
  | Bad_request string
  | Server_error string

fun is_created :: "create_response \<Rightarrow> bool" where
  "is_created (Created ord c e) = True"
| "is_created _ = False"

definition flavor_enum :: "string list" where
  "flavor_enum = [''Strawberry'', ''Thai Tea'', ''Matcha'', ''Milk'', ''Green Tea'']"

definition topping_enum :: "string list" where
  "topping_enum =
     [''Apple'', ''Cherry'', ''Blueberry'', ''Raspberry'', ''Strawberry'', ''Banana'', ''Mango'']"

text \<open>\<open>new Order({...})\<close> as the handler builds it, with the schema defaults.\<close>

definition new_order :: "order_env \<Rightarrow> order_request \<Rightarrow> menu_code_doc \<Rightarrow> order_doc" where
  "new_order env req codeDoc =
     \<lparr>ident = env_ident env,
      orderId = None,
      customerId = req_user req,
      menuCode = toUpperCase (body_menuCode req),
      customerCode = env_customerCode env,
      cupSize = menu_code_doc.cupSize codeDoc,
      shavedIce = body_shavedIce req,
      toppings = body_toppings req,
      pricing = \<lparr>basePrice = 60, sizePrice = 0, toppingsPrice = 0, total' = None\<rparr>,
      status = Pending,
      paymentStatus = Paid,
      specialInstructions = (case body_specialInstructions req of None \<Rightarrow> [] | Some s \<Rightarrow> s),
      timestamps = \<lparr>ordered = env_now env, prepared = None, ready = None, completed = None\<rparr>,
      isFreeDrink = False\<rparr>"

text \<open>
  \<open>order.save()\<close>: schema validation (the two enums, the length of the instructions),
  the pre-save hook that fills in \<open>orderId\<close>, and the two unique indexes.
\<close>

definition save_order :: "string \<Rightarrow> order_doc \<Rightarrow> order_doc list \<Rightarrow> error + (order_doc \<times> order_doc list)" where
  "save_order newId ord db =
     (if flavor (shavedIce ord) \<notin> set flavor_enum then Inl (ValidationError ''shavedIce.flavor'')
      else if \<not> list_all (\<lambda>t. topping_sub.name t \<in> set topping_enum) (toppings ord)
      then Inl (ValidationError ''toppings.name'')
      else if length (specialInstructions ord) > 200
      then Inl (ValidationError ''specialInstructions'')
      else (let ord' = (case orderId ord of None \<Rightarrow> ord\<lparr>orderId := Some newId\<rparr> | Some x \<Rightarrow> ord) in
            if customerCode ord' \<in> set (map customerCode db) then Inl (DuplicateKey ''customerCode'')
            else if orderId ord' \<in> set (map orderId db) then Inl (DuplicateKey ''orderId'')
            else Inr (ord', db @ [ord'])))"

text \<open>
  The block "check if user gets free drink": the flag, the order and the users
  afterwards. A guest, or a user id with no document, leaves all three as they are.
\<close>

definition loyalty_step ::
  "oid option \<Rightarrow> order_doc \<Rightarrow> user_doc list \<Rightarrow> bool \<times> order_doc \<times> user_doc list" where
  "loyalty_step who ord us =
     (case who of
        None \<Rightarrow> (False, ord, us)
      | Some u \<Rightarrow>
          (case findOne (\<lambda>d. user_ident d = u) us of
             None \<Rightarrow> (False, ord, us)
           | Some i \<Rightarrow>
               (let stamped = addLoyaltyStamp (us ! i);
                    earnedFreeDrink = fst stamped;
                    ord' = (if earnedFreeDrink
                            then snd (calculateTotal (ord\<lparr>isFreeDrink := True\<rparr>)) else ord);
                    total0 = (case total' (pricing ord') of None \<Rightarrow> 0 | Some t \<Rightarrow> t);
                    user = (snd stamped)\<lparr>orderHistory := orderHistory (snd stamped) @ [ident ord'],
                                          loyaltyPoints := loyaltyPoints (snd stamped) + total0 div 10\<rparr>
                in (earnedFreeDrink, ord', us[i := user]))))"

text \<open>
  The validator chain of the handler: \<open>menuCode\<close> not empty and of length 5,
  \<open>specialInstructions\<close> optional and of length at most 200 (\<open>shavedIce\<close> being an object
  and \<open>toppings\<close> an array are in the types). It holds when \<open>errors.isEmpty()\<close>.
\<close>

definition body_valid :: "order_request \<Rightarrow> bool" where
  "body_valid req \<longleftrightarrow>
     length (body_menuCode req) = 5
     \<and> (case body_specialInstructions req of None \<Rightarrow> True | Some s \<Rightarrow> length s \<le> 200)"

text \<open>
  \<open>POST /api/orders/create\<close>. \<open>MenuCode.expireCode\<close> is not defined by the MenuCode
  model among the sources, so it is the parameter \<open>expireCode\<close>: given the code as sent,
  the clock and the collection, it returns the new collection, or \<open>None\<close> when the call
  throws; the handler's \<open>catch\<close> around it swallows the failure.
\<close>

definition post_orders_create ::
  "(string \<Rightarrow> int \<Rightarrow> menu_code_doc list \<Rightarrow> menu_code_doc list option) \<Rightarrow>
     order_env \<Rightarrow> order_request \<Rightarrow> store \<Rightarrow> create_response \<times> store" where
  "post_orders_create expireCode env req st =
     (if \<not> body_valid req
      then (Bad_request ''Validation failed'', st)
      else
        (case findOne (\<lambda>m. code m = toUpperCase (body_menuCode req)) (menuCodes st) of
           None \<Rightarrow> (Bad_request ''Invalid menu code'', st)
         | Some i \<Rightarrow>
             (let codeDoc = menuCodes st ! i in
              if expiresAt codeDoc < env_now env
              then (Bad_request ''Menu code has expired'', st)
              else
                (let ord = snd (calculateTotal (new_order env req codeDoc));
                     step = loyalty_step (req_user req) ord (users st);
                     earnedFreeDrink = fst step;
                     st1 = st\<lparr>users := snd (snd step)\<rparr>
                 in case save_order (env_orderId env) (fst (snd step)) (orders st1) of
                      Inl e \<Rightarrow> (Server_error ''Failed to save order'', st1)
                    | Inr (saved, os) \<Rightarrow>
                        (let st2 = st1\<lparr>orders := os\<rparr>;
                             st3 = (case expireCode (body_menuCode req) (env_now env) (menuCodes st2) of
                                      None \<Rightarrow> st2
                                    | Some cs \<Rightarrow> st2\<lparr>menuCodes := cs\<rparr>)
                         in (Created saved (env_customerCode env) earnedFreeDrink, st3))))))"

text \<open>Against the MenuCode model of the sources the call \<open>MenuCode.expireCode(...)\<close>
  throws, since the model has no such static.\<close>

definition expireCode_undefined :: "string \<Rightarrow> int \<Rightarrow> menu_code_doc list \<Rightarrow> menu_code_doc list option" where
  "expireCode_undefined c now db = None"

section \<open>Sample documents\<close>

text \<open>Concrete documents and requests on which the operations are evaluated below.\<close>

definition strawberry_stock :: stock_doc where
  "strawberry_stock =
     \<lparr>itemType = Flavor, name = ''Strawberry'', quantity = 100, reorderLevel = 20,
      isActive = True\<rparr>"

definition mango_stock :: stock_doc where
  "mango_stock =
     \<lparr>itemType = Topping, name = ''Mango'', quantity = 1, reorderLevel = 20, isActive = True\<rparr>"

definition cherry_stock :: stock_doc where
  "cherry_stock =
     \<lparr>itemType = Topping, name = ''Cherry'', quantity = 20, reorderLevel = 20, isActive = True\<rparr>"

definition fresh_code :: menu_code_doc where
  "fresh_code =
     \<lparr>code = ''ABCDE'', cupSize = M, usageCount = 0, maxUsage = 2, createdBy = 0,
      usedBy = [], expiresAt = 1000\<rparr>"

definition full_code :: menu_code_doc where
  "full_code =
     \<lparr>code = ''TEST1'', cupSize = L, usageCount = 5, maxUsage = 5, createdBy = 0,
      usedBy = [(1, 10), (2, 20), (3, 30), (4, 40), (5, 50)], expiresAt = 1000\<rparr>"

definition stale_unused_code :: menu_code_doc where
  "stale_unused_code =
     \<lparr>code = ''OLD01'', cupSize = S, usageCount = 0, maxUsage = 5, createdBy = 0,
      usedBy = [], expiresAt = 100\<rparr>"

definition stale_used_code :: menu_code_doc where
  "stale_used_code =
     \<lparr>code = ''OLD02'', cupSize = S, usageCount = 1, maxUsage = 5, createdBy = 0,
      usedBy = [(9, 90)], expiresAt = 100\<rparr>"

definition completed_order :: order_doc where
  "completed_order =
     \<lparr>ident = 7,
      orderId = Some ''ORD7'',
      customerId = None,
      menuCode = ''TEST1'',
      customerCode = ''#QW3RT'',
      cupSize = L,
      shavedIce = \<lparr>flavor = ''Matcha'', points = 0\<rparr>,
      toppings = [],
      pricing = \<lparr>basePrice = 60, sizePrice = 20, toppingsPrice = 0, total' = Some 80\<rparr>,
      status = Completed,
      paymentStatus = Paid,
      specialInstructions = [],
      timestamps = \<lparr>ordered = 10, prepared = Some 20, ready = Some 30, completed = Some 40\<rparr>,
      isFreeDrink = False\<rparr>"

definition member_user :: user_doc where
  "member_user =
     \<lparr>user_ident = 42, loyaltyPoints = 0,
      loyaltyCard = \<lparr>stamps = 3, totalFreeDrinks = 0\<rparr>, orderHistory = []\<rparr>"

definition open_store :: store where
  "open_store =
     \<lparr>menuCodes = [fresh_code], orders = [], users = [member_user],
      stocks = [strawberry_stock, mango_stock]\<rparr>"

definition full_store :: store where
  "full_store =
     \<lparr>menuCodes = [full_code], orders = [], users = [member_user],
      stocks = [strawberry_stock, mango_stock]\<rparr>"

text \<open>A guest orders strawberry with mango on the code typed as \<open>abcde\<close>, and sends a cup
  size of its own along.\<close>

definition guest_request :: order_request where
  "guest_request =
     \<lparr>body_menuCode = ''abcde'',
      body_shavedIce = \<lparr>flavor = ''Strawberry'', points = 0\<rparr>,
      body_toppings = [\<lparr>name = ''Mango'', points = 0\<rparr>],
      body_specialInstructions = None,
      body_cupSize = Some ''L'',
      req_user = None\<rparr>"

definition sample_env :: order_env where
  "sample_env =
     \<lparr>env_now = 500, env_customerCode = ''#AB12C'', env_ident = 1, env_orderId = ''ORD1''\<rparr>"

section \<open>Facts about findOne\<close>

lemma findOne_None_iff: "findOne q ds = None \<longleftrightarrow> (\<forall>d \<in> set ds. \<not> q d)"
  by (induction ds) (auto split: option.splits)

lemma findOne_Some_bound: "findOne q ds = Some i \<Longrightarrow> i < length ds \<and> q (ds ! i)"
  by (induction ds arbitrary: i) (auto split: if_splits option.splits)

lemma findOne_Some_first: "findOne q ds = Some i \<Longrightarrow> j < i \<Longrightarrow> \<not> q (ds ! j)"
proof (induction ds arbitrary: i j)
  case Nil
  then show ?case by simp
next
  case (Cons d ds)
  then show ?case
    by (cases j) (auto split: if_splits option.splits)
qed

lemma findOne_first_match:
  "i < length ds \<Longrightarrow> q (ds ! i) \<Longrightarrow> (\<forall>j < i. \<not> q (ds ! j)) \<Longrightarrow> findOne q ds = Some i"
proof (induction ds arbitrary: i)
  case Nil
  then show ?case by simp
next
  case (Cons d ds)
  show ?case
  proof (cases i)
    case 0
    with Cons.prems show ?thesis by simp
  next
    case (Suc k)
    with Cons.prems have "\<not> q d" by auto
    moreover have "findOne q ds = Some k"
    proof (rule Cons.IH)
      show "k < length ds" using Cons.prems Suc by simp
      show "q (ds ! k)" using Cons.prems Suc by simp
      show "\<forall>j<k. \<not> q (ds ! j)"
      proof (intro allI impI)
        fix j assume "j < k"
        then have "Suc j < i" using Suc by simp
        with Cons.prems have "\<not> q ((d # ds) ! Suc j)" by blast
        then show "\<not> q (ds ! j)" by simp
      qed
    qed
    ultimately show ?thesis using Suc by simp
  qed
qed

lemma findOne_update_same:
  "findOne q ds = Some i \<Longrightarrow> q x \<Longrightarrow> findOne q (ds[i := x]) = Some i"
proof (induction ds arbitrary: i)
  case Nil
  then show ?case by simp
next
  case (Cons d ds)
  then show ?case
    by (cases i) (auto split: if_splits option.splits)
qed

section \<open>Stock: decrement and the low-stock query\<close>

lemma reduceStock_not_found:
  "\<forall>s \<in> set db. \<not> (itemType s = ty \<and> stock_doc.name s = nm) \<Longrightarrow>
   reduceStock ty nm amount db = (Inr None, db)"
  by (simp add: reduceStock_def findOne_None_iff[THEN iffD2])

lemma reduceStock_nonneg:
  "\<forall>s \<in> set db. 0 \<le> quantity s \<Longrightarrow>
   \<forall>s \<in> set (snd (reduceStock ty nm amount db)). 0 \<le> quantity s"
  by (auto simp: reduceStock_def Let_def split: option.splits
      dest!: set_update_subset_insert[THEN subsetD])

text \<open>
  C6, as the code has it. A decrement request has three outcomes. When no document matches
  the category and the name, the call does not fail: it returns \<open>null\<close> and leaves the
  collection as it was. When the first matching document holds less than the requested
  amount, the call throws the insufficient-stock error and leaves the collection as it was.
  Otherwise the amount is subtracted from that document, the document is saved, and the new
  quantity is not negative. So a collection without negative quantities stays one.
\<close>

theorem reduceStock_outcomes:
  "((\<forall>s \<in> set db. \<not> (itemType s = ty \<and> stock_doc.name s = nm)) \<longrightarrow>
      reduceStock ty nm amount db = (Inr None, db))
   \<and> (i < length db \<and> itemType (db ! i) = ty \<and> stock_doc.name (db ! i) = nm
          \<and> (\<forall>j < i. \<not> (itemType (db ! j) = ty \<and> stock_doc.name (db ! j) = nm)) \<longrightarrow>
        (quantity (db ! i) < amount \<longrightarrow>
           reduceStock ty nm amount db = (Inl (Insufficient_stock nm (quantity (db ! i))), db))
        \<and> (amount \<le> quantity (db ! i) \<longrightarrow>
           reduceStock ty nm amount db =
             (Inr (Some ((db ! i)\<lparr>quantity := quantity (db ! i) - amount\<rparr>)),
              db[i := (db ! i)\<lparr>quantity := quantity (db ! i) - amount\<rparr>])
           \<and> 0 \<le> quantity (db ! i) - amount))
   \<and> ((\<forall>s \<in> set db. 0 \<le> quantity s) \<longrightarrow>
        (\<forall>s \<in> set (snd (reduceStock ty nm amount db)). 0 \<le> quantity s))"
proof (intro conjI impI)
  assume "\<forall>s \<in> set db. \<not> (itemType s = ty \<and> stock_doc.name s = nm)"
  then show "reduceStock ty nm amount db = (Inr None, db)" by (rule reduceStock_not_found)
next
  assume h: "i < length db \<and> itemType (db ! i) = ty \<and> stock_doc.name (db ! i) = nm
          \<and> (\<forall>j < i. \<not> (itemType (db ! j) = ty \<and> stock_doc.name (db ! j) = nm))"
  then have f: "findOne (\<lambda>s. itemType s = ty \<and> stock_doc.name s = nm) db = Some i"
    by (intro findOne_first_match) auto
  {
    assume "quantity (db ! i) < amount"
    then show "reduceStock ty nm amount db = (Inl (Insufficient_stock nm (quantity (db ! i))), db)"
      using f by (simp add: reduceStock_def)
  }
  {
    assume "amount \<le> quantity (db ! i)"
    then show "reduceStock ty nm amount db =
             (Inr (Some ((db ! i)\<lparr>quantity := quantity (db ! i) - amount\<rparr>)),
              db[i := (db ! i)\<lparr>quantity := quantity (db ! i) - amount\<rparr>])"
      using f by (simp add: reduceStock_def Let_def)
  }
  {
    assume "amount \<le> quantity (db ! i)"
    then show "0 \<le> quantity (db ! i) - amount" by simp
  }
next
  assume "\<forall>s \<in> set db. 0 \<le> quantity s"
  then show "\<forall>s \<in> set (snd (reduceStock ty nm amount db)). 0 \<le> quantity s"
    by (rule reduceStock_nonneg)
qed

text \<open>
  The three outcomes on the collection of a strawberry flavour (100 in stock) and a mango
  topping (1 in stock): one mango is taken, two mangoes are refused, a cherry is not there.
\<close>

theorem reduceStock_outcomes_witness:
  "reduceStock Topping ''Mango'' 1 [strawberry_stock, mango_stock] =
     (Inr (Some (mango_stock\<lparr>quantity := 0\<rparr>)), [strawberry_stock, mango_stock\<lparr>quantity := 0\<rparr>])
   \<and> reduceStock Topping ''Mango'' 2 [strawberry_stock, mango_stock] =
     (Inl (Insufficient_stock ''Mango'' 1), [strawberry_stock, mango_stock])
   \<and> reduceStock Topping ''Cherry'' 1 [strawberry_stock, mango_stock] =
     (Inr None, [strawberry_stock, mango_stock])
   \<and> list_all (\<lambda>s. 0 \<le> quantity s)
       (snd (reduceStock Topping ''Mango'' 1 [strawberry_stock, mango_stock]))"
proof -
  let ?db = "[strawberry_stock, mango_stock]"
  have a: "reduceStock Topping ''Mango'' 1 ?db =
     (Inr (Some (mango_stock\<lparr>quantity := 0\<rparr>)), [strawberry_stock, mango_stock\<lparr>quantity := 0\<rparr>])"
    using reduceStock_outcomes[where db = ?db and ty = Topping and nm = "''Mango''" and amount = 1 and i = 1]
    by (simp add: strawberry_stock_def mango_stock_def)
  have b: "reduceStock Topping ''Mango'' 2 ?db = (Inl (Insufficient_stock ''Mango'' 1), ?db)"
    using reduceStock_outcomes[where db = ?db and ty = Topping and nm = "''Mango''" and amount = 2 and i = 1]
    by (simp add: strawberry_stock_def mango_stock_def)
  have c: "reduceStock Topping ''Cherry'' 1 ?db = (Inr None, ?db)"
    using reduceStock_outcomes[where db = ?db and ty = Topping and nm = "''Cherry''" and amount = 1 and i = 0]
    by (simp add: strawberry_stock_def mango_stock_def)
  have d: "list_all (\<lambda>s. 0 \<le> quantity s) (snd (reduceStock Topping ''Mango'' 1 ?db))"
    using reduceStock_outcomes[where db = ?db and ty = Topping and nm = "''Mango''" and amount = 1 and i = 1]
    by (simp add: strawberry_stock_def mango_stock_def list_all_iff)
  from a b c d show ?thesis by simp
qed

text \<open>
  C6 as the spec states it fails where no item matches: the call on a collection without
  mango does not fail with an error, it returns \<open>null\<close>.
\<close>

theorem reduceStock_missing_item_returns_null:
  "reduceStock Topping ''Mango'' 1 [strawberry_stock] = (Inr None, [strawberry_stock])"
  by (simp add: reduceStock_def strawberry_stock_def)

text \<open>
  C7, as the code has it. The low-stock query of the Stock model with the \<open>isActive\<close> flag
  returns exactly the documents whose quantity is strictly below their reorder level, each
  position once; the query of the Stock model without the flag returns exactly those whose
  quantity is below or equal to it.
\<close>

theorem getLowStockItems_exact:
  "set (getLowStockItems db) = {s \<in> set db. quantity s < reorderLevel s}
   \<and> length (getLowStockItems db)
       = card {i. i < length db \<and> quantity (db ! i) < reorderLevel (db ! i)}
   \<and> set (getLowStockItems_lte db) = {s \<in> set db. quantity s \<le> reorderLevel s}
   \<and> length (getLowStockItems_lte db)
       = card {i. i < length db \<and> quantity (db ! i) \<le> reorderLevel (db ! i)}"
  by (simp add: getLowStockItems_def getLowStockItems_lte_def length_filter_conv_card)

text \<open>
  C7 as the spec states it fails on the second variant: a cherry topping whose quantity
  equals its reorder level (20 and 20) is returned as low on stock.
\<close>

theorem getLowStockItems_lte_returns_equal:
  "getLowStockItems_lte [strawberry_stock, cherry_stock] = [cherry_stock]
   \<and> \<not> quantity cherry_stock < reorderLevel cherry_stock
   \<and> getLowStockItems [strawberry_stock, cherry_stock] = []"
  by (simp add: getLowStockItems_lte_def getLowStockItems_def strawberry_stock_def
      cherry_stock_def)

section \<open>Menu codes: redemption and cleanup\<close>

lemma toUpperCase_ABCDE: "toUpperCase ''ABCDE'' = ''ABCDE''"
  by code_simp

lemma toUpperCase_abcde: "toUpperCase ''abcde'' = ''ABCDE''"
  by code_simp

lemma validateAndUse_success:
  assumes "findOne (\<lambda>m. code m = toUpperCase c) db = Some i"
    and "\<not> expiresAt (db ! i) < now"
    and "usageCount (db ! i) < maxUsage (db ! i)"
  shows "validateAndUse now c orderRef db =
           (Inr ((db ! i)\<lparr>usageCount := usageCount (db ! i) + 1,
                           usedBy := usedBy (db ! i) @ [(orderRef, now)]\<rparr>),
            db[i := (db ! i)\<lparr>usageCount := usageCount (db ! i) + 1,
                               usedBy := usedBy (db ! i) @ [(orderRef, now)]\<rparr>])"
  using assms by (simp add: validateAndUse_def Let_def)

lemma validateAndUse_limit:
  assumes "findOne (\<lambda>m. code m = toUpperCase c) db = Some i"
    and "\<not> expiresAt (db ! i) < now"
    and "maxUsage (db ! i) \<le> usageCount (db ! i)"
  shows "validateAndUse now c orderRef db = (Inl Code_usage_limit_reached, db)"
  using assms by (simp add: validateAndUse_def Let_def)

lemma validateAndUse_invariant:
  assumes "\<forall>m \<in> set db. usageCount m \<le> maxUsage m"
  shows "\<forall>m \<in> set (snd (validateAndUse now c orderRef db)). usageCount m \<le> maxUsage m"
proof (cases "findOne (\<lambda>m. code m = toUpperCase c) db")
  case None
  then show ?thesis using assms by (simp add: validateAndUse_def)
next
  case (Some i)
  show ?thesis
  proof (cases "expiresAt (db ! i) < now \<or> maxUsage (db ! i) \<le> usageCount (db ! i)")
    case True
    then show ?thesis using assms Some by (auto simp: validateAndUse_def Let_def)
  next
    case False
    then have lt: "usageCount (db ! i) < maxUsage (db ! i)" by simp
    let ?m = "(db ! i)\<lparr>usageCount := usageCount (db ! i) + 1,
                           usedBy := usedBy (db ! i) @ [(orderRef, now)]\<rparr>"
    have eq: "snd (validateAndUse now c orderRef db) = db[i := ?m]"
      using Some False by (simp add: validateAndUse_def Let_def)
    have "usageCount ?m \<le> maxUsage ?m" using lt by simp
    moreover have "set (db[i := ?m]) \<subseteq> insert ?m (set db)" by (rule set_update_subset_insert)
    ultimately show ?thesis using assms unfolding eq by blast
  qed
qed

lemma redeem_seq_invariant:
  "\<forall>m \<in> set db. usageCount m \<le> maxUsage m \<Longrightarrow>
   \<forall>m \<in> set (snd (redeem_seq rs db)). usageCount m \<le> maxUsage m"
proof (induction rs arbitrary: db)
  case Nil
  then show ?case by simp
next
  case (Cons r rs)
  obtain now c orderRef where r: "r = (now, c, orderRef)" by (cases r) auto
  have "\<forall>m \<in> set (snd (validateAndUse now c orderRef db)). usageCount m \<le> maxUsage m"
    using Cons.prems by (rule validateAndUse_invariant)
  then have "\<forall>m \<in> set (snd (redeem_seq rs (snd (validateAndUse now c orderRef db)))).
               usageCount m \<le> maxUsage m"
    by (rule Cons.IH)
  then show ?case by (simp add: r Let_def)
qed

text \<open>
  A run of redemptions of one code that stays within the limit and before the expiry:
  every one succeeds, the k-th success carries the count raised k + 1 times and one more
  \<open>usedBy\<close> entry each, and the document keeps its place, its limit and its expiry.
\<close>

lemma redeem_seq_run:
  assumes "findOne (\<lambda>m. code m = cu) db = Some i"
    and "usageCount (db ! i) + int (length rs) \<le> maxUsage (db ! i)"
    and "\<forall>r \<in> set rs. toUpperCase (fst (snd r)) = cu \<and> \<not> expiresAt (db ! i) < fst r"
  shows "length (fst (redeem_seq rs db)) = length rs
       \<and> (\<forall>k < length rs. \<exists>m. fst (redeem_seq rs db) ! k = Inr m
              \<and> usageCount m = usageCount (db ! i) + int k + 1
              \<and> length (usedBy m) = length (usedBy (db ! i)) + k + 1)
       \<and> findOne (\<lambda>m. code m = cu) (snd (redeem_seq rs db)) = Some i
       \<and> usageCount (snd (redeem_seq rs db) ! i) = usageCount (db ! i) + int (length rs)
       \<and> length (usedBy (snd (redeem_seq rs db) ! i)) = length (usedBy (db ! i)) + length rs
       \<and> maxUsage (snd (redeem_seq rs db) ! i) = maxUsage (db ! i)
       \<and> expiresAt (snd (redeem_seq rs db) ! i) = expiresAt (db ! i)"
  using assms
proof (induction rs arbitrary: db)
  case Nil
  then show ?case by simp
next
  case (Cons r rs)
  obtain now c orderRef where r: "r = (now, c, orderRef)" by (cases r) auto
  let ?m = "(db ! i)\<lparr>usageCount := usageCount (db ! i) + 1,
                         usedBy := usedBy (db ! i) @ [(orderRef, now)]\<rparr>"
  let ?db = "db[i := ?m]"
  have cu: "toUpperCase c = cu" and ne: "\<not> expiresAt (db ! i) < now"
    using Cons.prems(3) r by auto
  have found: "findOne (\<lambda>m. code m = toUpperCase c) db = Some i"
    using Cons.prems(1) cu by simp
  have i: "i < length db" and ci: "code (db ! i) = cu"
    using findOne_Some_bound[OF Cons.prems(1)] by auto
  have lt: "usageCount (db ! i) < maxUsage (db ! i)"
    using Cons.prems(2) by simp
  have step: "validateAndUse now c orderRef db = (Inr ?m, ?db)"
    using validateAndUse_success[OF found ne lt] .
  have at: "?db ! i = ?m" using i by simp
  have found': "findOne (\<lambda>m. code m = cu) ?db = Some i"
    using Cons.prems(1) ci by (intro findOne_update_same) auto
  have bound': "usageCount (?db ! i) + int (length rs) \<le> maxUsage (?db ! i)"
    using Cons.prems(2) at by simp
  have ok': "\<forall>r \<in> set rs. toUpperCase (fst (snd r)) = cu \<and> \<not> expiresAt (?db ! i) < fst r"
    using Cons.prems(3) at by simp
  note IH = Cons.IH[OF found' bound' ok']
  have unfold: "redeem_seq (r # rs) db = (Inr ?m # fst (redeem_seq rs ?db), snd (redeem_seq rs ?db))"
    by (simp add: r step Let_def)
  have results: "\<forall>k < length (r # rs). \<exists>m. fst (redeem_seq (r # rs) db) ! k = Inr m
              \<and> usageCount m = usageCount (db ! i) + int k + 1
              \<and> length (usedBy m) = length (usedBy (db ! i)) + k + 1"
  proof (intro allI impI)
    fix k assume k: "k < length (r # rs)"
    show "\<exists>m. fst (redeem_seq (r # rs) db) ! k = Inr m
              \<and> usageCount m = usageCount (db ! i) + int k + 1
              \<and> length (usedBy m) = length (usedBy (db ! i)) + k + 1"
    proof (cases k)
      case 0
      then show ?thesis by (simp add: unfold)
    next
      case (Suc j)
      then have "j < length rs" using k by simp
      with IH obtain m where "fst (redeem_seq rs ?db) ! j = Inr m"
        "usageCount m = usageCount (?db ! i) + int j + 1"
        "length (usedBy m) = length (usedBy (?db ! i)) + j + 1" by blast
      then show ?thesis using Suc at by (simp add: unfold)
    qed
  qed
  show ?case
    using IH results at by (simp add: unfold)
qed

text \<open>
  C5. Take a code that is found in the collection with a usage count of 0 and a limit of
  N, and N redemptions of it, none later than its expiry. Then all N redemptions succeed;
  the k-th success has raised the usage count to k and appended one \<open>usedBy\<close> entry per
  success; afterwards the usage count equals the limit, and one more redemption before the
  expiry fails with the usage-limit error and leaves the collection as it was. And whatever
  the redemptions are, a collection in which no usage count exceeds its limit stays one.
\<close>

theorem validateAndUse_usage_limit:
  assumes "findOne (\<lambda>m. code m = toUpperCase c) db = Some i"
    and "usageCount (db ! i) = 0"
    and "maxUsage (db ! i) = int n"
    and "length rs = n"
    and "\<forall>r \<in> set rs. toUpperCase (fst (snd r)) = toUpperCase c \<and> \<not> expiresAt (db ! i) < fst r"
    and "\<not> expiresAt (db ! i) < now"
  shows "length (fst (redeem_seq rs db)) = n
       \<and> (\<forall>k < n. \<exists>m. fst (redeem_seq rs db) ! k = Inr m
              \<and> usageCount m = int k + 1
              \<and> length (usedBy m) = length (usedBy (db ! i)) + k + 1)
       \<and> usageCount (snd (redeem_seq rs db) ! i) = maxUsage (db ! i)
       \<and> length (usedBy (snd (redeem_seq rs db) ! i)) = length (usedBy (db ! i)) + n
       \<and> validateAndUse now c orderRef (snd (redeem_seq rs db))
           = (Inl Code_usage_limit_reached, snd (redeem_seq rs db))
       \<and> ((\<forall>m \<in> set db. usageCount m \<le> maxUsage m) \<longrightarrow>
            (\<forall>rs'. \<forall>m \<in> set (snd (redeem_seq rs' db)). usageCount m \<le> maxUsage m))"
proof -
  have bound: "usageCount (db ! i) + int (length rs) \<le> maxUsage (db ! i)"
    using assms(2,3,4) by simp
  note run = redeem_seq_run[OF assms(1) bound assms(5)]
  let ?db = "snd (redeem_seq rs db)"
  have found: "findOne (\<lambda>m. code m = toUpperCase c) ?db = Some i"
    using run by simp
  have ne: "\<not> expiresAt (?db ! i) < now" using run assms(6) by simp
  have full: "maxUsage (?db ! i) \<le> usageCount (?db ! i)"
    using run assms(2,3,4) by simp
  have last: "validateAndUse now c orderRef ?db = (Inl Code_usage_limit_reached, ?db)"
    using validateAndUse_limit[OF found ne full] .
  have inv: "(\<forall>m \<in> set db. usageCount m \<le> maxUsage m) \<longrightarrow>
            (\<forall>rs'. \<forall>m \<in> set (snd (redeem_seq rs' db)). usageCount m \<le> maxUsage m)"
    using redeem_seq_invariant by blast
  have each: "\<forall>k < n. \<exists>m. fst (redeem_seq rs db) ! k = Inr m
              \<and> usageCount m = int k + 1
              \<and> length (usedBy m) = length (usedBy (db ! i)) + k + 1"
    using run assms(2,4) by simp
  show ?thesis
    using run each last inv assms(2,3,4) by simp
qed

text \<open>
  The code ABCDE with a limit of 2: two redemptions (one typed in lower case) bring the
  usage count to 2 with two \<open>usedBy\<close> entries, and the third is refused.
\<close>

theorem validateAndUse_usage_limit_witness:
  "usageCount (snd (redeem_seq [(100, ''ABCDE'', 1), (200, ''abcde'', 2)] [fresh_code]) ! 0) = 2
   \<and> length (usedBy (snd (redeem_seq [(100, ''ABCDE'', 1), (200, ''abcde'', 2)] [fresh_code]) ! 0)) = 2
   \<and> length (fst (redeem_seq [(100, ''ABCDE'', 1), (200, ''abcde'', 2)] [fresh_code])) = 2
   \<and> validateAndUse 300 ''ABCDE'' 3
       (snd (redeem_seq [(100, ''ABCDE'', 1), (200, ''abcde'', 2)] [fresh_code]))
     = (Inl Code_usage_limit_reached,
        snd (redeem_seq [(100, ''ABCDE'', 1), (200, ''abcde'', 2)] [fresh_code]))"
proof -
  let ?db = "[fresh_code]"
  let ?rs = "[(100::int, ''ABCDE'', 1::nat), (200, ''abcde'', 2)]"
  have h1: "findOne (\<lambda>m. code m = toUpperCase ''ABCDE'') ?db = Some 0"
    by (simp add: toUpperCase_ABCDE fresh_code_def)
  have h2: "usageCount (?db ! 0) = 0" by (simp add: fresh_code_def)
  have h3: "maxUsage (?db ! 0) = int 2" by (simp add: fresh_code_def)
  have h4: "length ?rs = 2" by simp
  have h5: "\<forall>r \<in> set ?rs. toUpperCase (fst (snd r)) = toUpperCase ''ABCDE''
              \<and> \<not> expiresAt (?db ! 0) < fst r"
    by (simp add: toUpperCase_ABCDE toUpperCase_abcde fresh_code_def)
  have h6: "\<not> expiresAt (?db ! 0) < 300" by (simp add: fresh_code_def)
  from validateAndUse_usage_limit[OF h1 h2 h3 h4 h5 h6, of 3]
  show ?thesis by (simp add: fresh_code_def)
qed

text \<open>
  C8. \<open>cleanupExpired\<close> keeps exactly the codes that are not both unused (usage count 0)
  and past their expiry, returns the number of positions it removed, and leaves the codes
  with a usage count of 1 or more as they were, in their order, expired or not.
\<close>

theorem cleanupExpired_exact:
  "set (snd (cleanupExpired now db)) = {m \<in> set db. \<not> (usageCount m = 0 \<and> expiresAt m < now)}
   \<and> fst (cleanupExpired now db)
       = card {i. i < length db \<and> usageCount (db ! i) = 0 \<and> expiresAt (db ! i) < now}
   \<and> fst (cleanupExpired now db) + length (snd (cleanupExpired now db)) = length db
   \<and> filter (\<lambda>m. 1 \<le> usageCount m) (snd (cleanupExpired now db))
       = filter (\<lambda>m. 1 \<le> usageCount m) db
   \<and> filter (\<lambda>m. \<not> expiresAt m < now) (snd (cleanupExpired now db))
       = filter (\<lambda>m. \<not> expiresAt m < now) db"
proof -
  have a: "set (snd (cleanupExpired now db))
             = {m \<in> set db. \<not> (usageCount m = 0 \<and> expiresAt m < now)}"
    by (simp add: cleanupExpired_def)
  have b: "fst (cleanupExpired now db)
       = card {i. i < length db \<and> usageCount (db ! i) = 0 \<and> expiresAt (db ! i) < now}"
    by (simp add: cleanupExpired_def length_filter_conv_card)
  have c: "fst (cleanupExpired now db) + length (snd (cleanupExpired now db)) = length db"
    using sum_length_filter_compl[of "\<lambda>m. usageCount m = 0 \<and> expiresAt m < now" db]
    by (simp add: cleanupExpired_def)
  have d: "filter (\<lambda>m. 1 \<le> usageCount m) (snd (cleanupExpired now db))
             = filter (\<lambda>m. 1 \<le> usageCount m) db"
    by (auto simp: cleanupExpired_def intro: filter_cong)
  have e: "filter (\<lambda>m. \<not> expiresAt m < now) (snd (cleanupExpired now db))
             = filter (\<lambda>m. \<not> expiresAt m < now) db"
    by (auto simp: cleanupExpired_def intro: filter_cong)
  from a b c d e show ?thesis by blast
qed

text \<open>At time 500, of a fresh code, an expired unused one, an expired used one and a full
  one, only the expired unused code goes.\<close>

lemma cleanupExpired_example:
  "cleanupExpired 500 [fresh_code, stale_unused_code, stale_used_code, full_code]
     = (1, [fresh_code, stale_used_code, full_code])"
  by (simp add: cleanupExpired_def fresh_code_def stale_unused_code_def stale_used_code_def
      full_code_def)

section \<open>Orders: price and status\<close>

lemma calculateTotal_frame:
  "snd (calculateTotal this) = this\<lparr>pricing := pricing (snd (calculateTotal this))\<rparr>"
  by (simp add: calculateTotal_def Let_def)

lemma calculateTotal_pricing:
  "pricing (snd (calculateTotal this)) =
     (pricing this)\<lparr>sizePrice := sizePrices (order_doc.cupSize this),
                      toppingsPrice := 10 * int (length (toppings this)),
                      total' := Some (fst (calculateTotal this))\<rparr>"
  by (simp add: calculateTotal_def Let_def)

lemma calculateTotal_value:
  "fst (calculateTotal this) =
     (if isFreeDrink this then 0
      else (if basePrice (pricing this) = 0 then 60 else basePrice (pricing this))
           + sizePrices (order_doc.cupSize this) + 10 * int (length (toppings this)))"
  by (simp add: calculateTotal_def Let_def)

lemma status_strings:
  "status_of_string ''Pending'' = Some Pending"
  "status_of_string ''Preparing'' = Some Preparing"
  "status_of_string ''Ready'' = Some Ready"
  "status_of_string ''Completed'' = Some Completed"
  "status_of_string ''Cancelled'' = Some Cancelled"
  by (simp_all add: status_of_string_def)

text \<open>
  C3, as the code has it. \<open>updateStatus\<close> checks no transition: whatever the current
  status of the order, a requested status that is one of the five of the enum is assigned,
  the timestamp matching it is stamped (\<open>prepared\<close>, \<open>ready\<close> or \<open>completed\<close>; none for
  Pending and Cancelled), and the handler stores the order and answers with it. The only
  request that fails is a status string outside the enum, which \<open>save\<close> rejects and which
  leaves the collection as it was.
\<close>

theorem updateStatus_any_transition:
  "(status_of_string newStatus = Some st \<longrightarrow>
      updateStatus now newStatus this =
        Inr (this\<lparr>status := st, timestamps := statusTimestamps now st (timestamps this)\<rparr>)
      \<and> (findOne (\<lambda>ord. ident ord = orderRef) db = Some i \<longrightarrow>
           put_order_status now orderRef newStatus db =
             (Status_updated ((db ! i)\<lparr>status := st,
                 timestamps := statusTimestamps now st (timestamps (db ! i))\<rparr>),
              db[i := (db ! i)\<lparr>status := st,
                 timestamps := statusTimestamps now st (timestamps (db ! i))\<rparr>])))
   \<and> (status_of_string newStatus = None \<longrightarrow>
        updateStatus now newStatus this = Inl (ValidationError ''status'')
        \<and> snd (put_order_status now orderRef newStatus db) = db)
   \<and> status_of_string ''Pending'' = Some Pending
   \<and> status_of_string ''Preparing'' = Some Preparing
   \<and> status_of_string ''Ready'' = Some Ready
   \<and> status_of_string ''Completed'' = Some Completed
   \<and> status_of_string ''Cancelled'' = Some Cancelled
   \<and> statusTimestamps now Pending ts = ts
   \<and> statusTimestamps now Preparing ts = ts\<lparr>prepared := Some now\<rparr>
   \<and> statusTimestamps now Ready ts = ts\<lparr>ready := Some now\<rparr>
   \<and> statusTimestamps now Completed ts = ts\<lparr>completed := Some now\<rparr>
   \<and> statusTimestamps now Cancelled ts = ts"
  by (simp add: updateStatus_def put_order_status_def status_strings statusTimestamps_def
      split: option.splits)

text \<open>
  A pending order is cancelled; a status string outside the enum is refused by validation.
\<close>

theorem updateStatus_any_transition_witness:
  "updateStatus 50 ''Cancelled'' (completed_order\<lparr>status := Pending\<rparr>)
     = Inr (completed_order\<lparr>status := Cancelled\<rparr>)
   \<and> put_order_status 50 7 ''Cancelled'' [completed_order\<lparr>status := Pending\<rparr>]
     = (Status_updated (completed_order\<lparr>status := Cancelled\<rparr>),
        [completed_order\<lparr>status := Cancelled\<rparr>])
   \<and> updateStatus 50 ''Done'' completed_order = Inl (ValidationError ''status'')"
proof -
  have h1: "status_of_string ''Cancelled'' = Some Cancelled" by (rule status_strings)
  have h2: "findOne (\<lambda>ord. ident ord = 7) [completed_order\<lparr>status := Pending\<rparr>] = Some 0"
    by (simp add: completed_order_def)
  have h3: "status_of_string ''Done'' = None" by (simp add: status_of_string_def)
  from updateStatus_any_transition[where newStatus = "''Cancelled''" and st = Cancelled
      and now = 50 and this = "completed_order\<lparr>status := Pending\<rparr>" and orderRef = 7
      and db = "[completed_order\<lparr>status := Pending\<rparr>]" and i = 0]
    updateStatus_any_transition[where newStatus = "''Done''" and now = 50
      and this = completed_order]
    h1 h2 h3
  show ?thesis by (simp add: completed_order_def)
qed

text \<open>
  C3 as the spec states it fails: the transition from Completed back to Preparing is not
  rejected. The completed order becomes a preparing one, with \<open>prepared\<close> stamped anew, in
  the model's method and through the handler.
\<close>

theorem updateStatus_completed_to_preparing:
  "status completed_order = Completed
   \<and> updateStatus 50 ''Preparing'' completed_order
       = Inr (completed_order\<lparr>status := Preparing,
               timestamps := (timestamps completed_order)\<lparr>prepared := Some 50\<rparr>\<rparr>)
   \<and> put_order_status 50 7 ''Preparing'' [completed_order]
       = (Status_updated (completed_order\<lparr>status := Preparing,
               timestamps := (timestamps completed_order)\<lparr>prepared := Some 50\<rparr>\<rparr>),
          [completed_order\<lparr>status := Preparing,
               timestamps := (timestamps completed_order)\<lparr>prepared := Some 50\<rparr>\<rparr>])"
  by (simp add: updateStatus_def put_order_status_def status_of_string_def
      statusTimestamps_def completed_order_def)

section \<open>Order creation: the handler's outcomes\<close>

lemma save_order_Inr:
  assumes "save_order newId ord db = Inr (saved, db')"
  shows "db' = db @ [saved]
       \<and> saved = (case orderId ord of None \<Rightarrow> ord\<lparr>orderId := Some newId\<rparr> | Some x \<Rightarrow> ord)"
  using assms by (auto simp: save_order_def Let_def split: if_splits)

lemma save_order_fields:
  assumes "save_order newId ord db = Inr (saved, db')"
  shows "paymentStatus saved = paymentStatus ord"
    and "order_doc.cupSize saved = order_doc.cupSize ord"
    and "pricing saved = pricing ord"
    and "ident saved = ident ord"
    and "isFreeDrink saved = isFreeDrink ord"
    and "toppings saved = toppings ord"
  using save_order_Inr[OF assms] by (auto split: option.splits)

lemma loyalty_step_fields:
  "paymentStatus (fst (snd (loyalty_step who ord us))) = paymentStatus ord"
  "order_doc.cupSize (fst (snd (loyalty_step who ord us))) = order_doc.cupSize ord"
  "ident (fst (snd (loyalty_step who ord us))) = ident ord"
  by (simp_all add: loyalty_step_def Let_def calculateTotal_def split: option.splits)

lemma loyalty_step_guest:
  "loyalty_step None ord us = (False, ord, us)"
  by (simp add: loyalty_step_def)

lemma loyalty_step_member:
  assumes "findOne (\<lambda>d. user_ident d = u) us = Some i"
  shows "fst (loyalty_step (Some u) ord us) = fst (addLoyaltyStamp (us ! i))"
    and "length (snd (snd (loyalty_step (Some u) ord us))) = length us"
    and "loyaltyCard (snd (snd (loyalty_step (Some u) ord us)) ! i)
           = loyaltyCard (snd (addLoyaltyStamp (us ! i)))"
    and "orderHistory (snd (snd (loyalty_step (Some u) ord us)) ! i)
           = orderHistory (us ! i) @ [ident ord]"
    and "\<forall>j < length us. j \<noteq> i \<longrightarrow> snd (snd (loyalty_step (Some u) ord us)) ! j = us ! j"
  using assms findOne_Some_bound[OF assms]
  by (simp_all add: loyalty_step_def Let_def addLoyaltyStamp_def calculateTotal_def)

lemma new_order_fields:
  "paymentStatus (new_order env req codeDoc) = Paid"
  "order_doc.cupSize (new_order env req codeDoc) = menu_code_doc.cupSize codeDoc"
  "ident (new_order env req codeDoc) = env_ident env"
  by (simp_all add: new_order_def)

lemma calculateTotal_fields:
  "paymentStatus (snd (calculateTotal this)) = paymentStatus this"
  "order_doc.cupSize (snd (calculateTotal this)) = order_doc.cupSize this"
  "ident (snd (calculateTotal this)) = ident this"
  by (simp_all add: calculateTotal_def Let_def)

lemma post_orders_create_invalid:
  "\<not> body_valid req \<Longrightarrow>
   post_orders_create expireCode env req st = (Bad_request ''Validation failed'', st)"
  by (auto simp: post_orders_create_def body_valid_def split: option.splits)

lemma post_orders_create_no_code:
  "body_valid req \<Longrightarrow>
   findOne (\<lambda>m. code m = toUpperCase (body_menuCode req)) (menuCodes st) = None \<Longrightarrow>
   post_orders_create expireCode env req st = (Bad_request ''Invalid menu code'', st)"
  by (auto simp: post_orders_create_def body_valid_def split: option.splits)

lemma post_orders_create_expired:
  "body_valid req \<Longrightarrow>
   findOne (\<lambda>m. code m = toUpperCase (body_menuCode req)) (menuCodes st) = Some i \<Longrightarrow>
   expiresAt (menuCodes st ! i) < env_now env \<Longrightarrow>
   post_orders_create expireCode env req st = (Bad_request ''Menu code has expired'', st)"
  by (auto simp: post_orders_create_def body_valid_def split: option.splits)

lemma post_orders_create_save_failed:
  "body_valid req \<Longrightarrow>
   findOne (\<lambda>m. code m = toUpperCase (body_menuCode req)) (menuCodes st) = Some i \<Longrightarrow>
   \<not> expiresAt (menuCodes st ! i) < env_now env \<Longrightarrow>
   save_order (env_orderId env)
     (fst (snd (loyalty_step (req_user req)
        (snd (calculateTotal (new_order env req (menuCodes st ! i)))) (users st))))
     (orders st) = Inl err \<Longrightarrow>
   post_orders_create expireCode env req st =
     (Server_error ''Failed to save order'',
      st\<lparr>users := snd (snd (loyalty_step (req_user req)
        (snd (calculateTotal (new_order env req (menuCodes st ! i)))) (users st)))\<rparr>)"
  by (auto simp: post_orders_create_def body_valid_def Let_def split: option.splits)

lemma post_orders_create_saved:
  "body_valid req \<Longrightarrow>
   findOne (\<lambda>m. code m = toUpperCase (body_menuCode req)) (menuCodes st) = Some i \<Longrightarrow>
   \<not> expiresAt (menuCodes st ! i) < env_now env \<Longrightarrow>
   save_order (env_orderId env)
     (fst (snd (loyalty_step (req_user req)
        (snd (calculateTotal (new_order env req (menuCodes st ! i)))) (users st))))
     (orders st) = Inr (saved, os) \<Longrightarrow>
   post_orders_create expireCode env req st =
     (Created saved (env_customerCode env)
        (fst (loyalty_step (req_user req)
           (snd (calculateTotal (new_order env req (menuCodes st ! i)))) (users st))),
      (case expireCode (body_menuCode req) (env_now env) (menuCodes st) of
         None \<Rightarrow> st\<lparr>users := snd (snd (loyalty_step (req_user req)
                   (snd (calculateTotal (new_order env req (menuCodes st ! i)))) (users st))),
                  orders := os\<rparr>
       | Some cs \<Rightarrow> st\<lparr>users := snd (snd (loyalty_step (req_user req)
                   (snd (calculateTotal (new_order env req (menuCodes st ! i)))) (users st))),
                  orders := os, menuCodes := cs\<rparr>))"
  by (auto simp: post_orders_create_def body_valid_def Let_def split: option.splits)

text \<open>The five ways the handler ends.\<close>

lemma post_orders_create_cases:
  obtains
    (invalid) "\<not> body_valid req"
      "post_orders_create expireCode env req st = (Bad_request ''Validation failed'', st)"
  | (no_code) "body_valid req"
      "findOne (\<lambda>m. code m = toUpperCase (body_menuCode req)) (menuCodes st) = None"
      "post_orders_create expireCode env req st = (Bad_request ''Invalid menu code'', st)"
  | (expired) i where "body_valid req"
      "findOne (\<lambda>m. code m = toUpperCase (body_menuCode req)) (menuCodes st) = Some i"
      "expiresAt (menuCodes st ! i) < env_now env"
      "post_orders_create expireCode env req st = (Bad_request ''Menu code has expired'', st)"
  | (save_failed) i err where "body_valid req"
      "findOne (\<lambda>m. code m = toUpperCase (body_menuCode req)) (menuCodes st) = Some i"
      "\<not> expiresAt (menuCodes st ! i) < env_now env"
      "save_order (env_orderId env)
         (fst (snd (loyalty_step (req_user req)
            (snd (calculateTotal (new_order env req (menuCodes st ! i)))) (users st))))
         (orders st) = Inl err"
      "post_orders_create expireCode env req st =
         (Server_error ''Failed to save order'',
          st\<lparr>users := snd (snd (loyalty_step (req_user req)
            (snd (calculateTotal (new_order env req (menuCodes st ! i)))) (users st)))\<rparr>)"
  | (saved) i saved os where "body_valid req"
      "findOne (\<lambda>m. code m = toUpperCase (body_menuCode req)) (menuCodes st) = Some i"
      "\<not> expiresAt (menuCodes st ! i) < env_now env"
      "save_order (env_orderId env)
         (fst (snd (loyalty_step (req_user req)
            (snd (calculateTotal (new_order env req (menuCodes st ! i)))) (users st))))
         (orders st) = Inr (saved, os)"
      "post_orders_create expireCode env req st =
         (Created saved (env_customerCode env)
            (fst (loyalty_step (req_user req)
               (snd (calculateTotal (new_order env req (menuCodes st ! i)))) (users st))),
          (case expireCode (body_menuCode req) (env_now env) (menuCodes st) of
             None \<Rightarrow> st\<lparr>users := snd (snd (loyalty_step (req_user req)
                       (snd (calculateTotal (new_order env req (menuCodes st ! i)))) (users st))),
                      orders := os\<rparr>
           | Some cs \<Rightarrow> st\<lparr>users := snd (snd (loyalty_step (req_user req)
                       (snd (calculateTotal (new_order env req (menuCodes st ! i)))) (users st))),
                      orders := os, menuCodes := cs\<rparr>))"
proof (cases "body_valid req")
  case False
  then show ?thesis using invalid post_orders_create_invalid by blast
next
  case valid: True
  show ?thesis
  proof (cases "findOne (\<lambda>m. code m = toUpperCase (body_menuCode req)) (menuCodes st)")
    case None
    then show ?thesis using no_code valid post_orders_create_no_code by blast
  next
    case (Some i)
    show ?thesis
    proof (cases "expiresAt (menuCodes st ! i) < env_now env")
      case True
      then show ?thesis using expired valid Some post_orders_create_expired by blast
    next
      case live: False
      show ?thesis
      proof (cases "save_order (env_orderId env)
         (fst (snd (loyalty_step (req_user req)
            (snd (calculateTotal (new_order env req (menuCodes st ! i)))) (users st))))
         (orders st)")
        case (Inl err)
        then show ?thesis
          using save_failed[OF valid Some live] post_orders_create_save_failed[OF valid Some live]
          by blast
      next
        case (Inr r)
        obtain sv os where r: "r = (sv, os)" by (cases r)
        show ?thesis
          using saved[OF valid Some live] post_orders_create_saved[OF valid Some live] Inr r
          by blast
      qed
    qed
  qed
qed

lemma post_orders_create_stocks:
  "stocks (snd (post_orders_create expireCode env req st)) = stocks st"
  by (cases rule: post_orders_create_cases[of req expireCode env st])
     (auto split: option.splits)

lemma post_orders_create_not_created:
  "\<not> is_created (fst (post_orders_create expireCode env req st)) \<Longrightarrow>
   orders (snd (post_orders_create expireCode env req st)) = orders st
   \<and> menuCodes (snd (post_orders_create expireCode env req st)) = menuCodes st"
  by (cases rule: post_orders_create_cases[of req expireCode env st])
     (auto split: option.splits)

lemma post_orders_create_Created:
  assumes "fst (post_orders_create expireCode env req st) = Created ord c e"
  shows "\<exists>i. findOne (\<lambda>m. code m = toUpperCase (body_menuCode req)) (menuCodes st) = Some i
       \<and> \<not> expiresAt (menuCodes st ! i) < env_now env
       \<and> save_order (env_orderId env)
            (fst (snd (loyalty_step (req_user req)
               (snd (calculateTotal (new_order env req (menuCodes st ! i)))) (users st))))
            (orders st) = Inr (ord, orders st @ [ord])
       \<and> c = env_customerCode env
       \<and> e = fst (loyalty_step (req_user req)
               (snd (calculateTotal (new_order env req (menuCodes st ! i)))) (users st))
       \<and> orders (snd (post_orders_create expireCode env req st)) = orders st @ [ord]
       \<and> users (snd (post_orders_create expireCode env req st))
           = snd (snd (loyalty_step (req_user req)
               (snd (calculateTotal (new_order env req (menuCodes st ! i)))) (users st)))
       \<and> menuCodes (snd (post_orders_create expireCode env req st))
           = (case expireCode (body_menuCode req) (env_now env) (menuCodes st) of
                None \<Rightarrow> menuCodes st | Some cs \<Rightarrow> cs)"
proof (cases rule: post_orders_create_cases[of req expireCode env st])
  case (saved i sv os)
  from saved(5) assms have eqs: "sv = ord" "c = env_customerCode env"
    "e = fst (loyalty_step (req_user req)
               (snd (calculateTotal (new_order env req (menuCodes st ! i)))) (users st))"
    by simp_all
  from save_order_Inr[OF saved(4)] have os: "os = orders st @ [sv]" by simp
  show ?thesis
    using saved eqs os by (auto split: option.splits)
qed (use assms in simp_all)

section \<open>Order creation: the claims\<close>

lemma toUpperCase_test1: "toUpperCase ''test1'' = ''TEST1''"
  by code_simp

lemma toUpperCase_zzzzz: "toUpperCase ''zzzzz'' = ''ZZZZZ''"
  by code_simp

lemmas sample_defs =
  open_store_def full_store_def guest_request_def sample_env_def fresh_code_def full_code_def
  member_user_def strawberry_stock_def mango_stock_def

lemmas handler_defs =
  post_orders_create_def body_valid_def new_order_def calculateTotal_def sizePrices_def
  loyalty_step_def addLoyaltyStamp_def save_order_def flavor_enum_def topping_enum_def
  expireCode_undefined_def Let_def

text \<open>
  What the creation handler does to the store. It never touches the stock collection;
  when no order is created, the orders and the menu codes are unchanged; when an order is
  created, it is appended to the orders and the menu codes are what the call of
  \<open>MenuCode.expireCode\<close> after the save leaves (unchanged when that call throws).
\<close>

lemma post_orders_create_frame:
  "stocks (snd (post_orders_create expireCode env req st)) = stocks st
   \<and> (\<not> is_created (fst (post_orders_create expireCode env req st)) \<longrightarrow>
        orders (snd (post_orders_create expireCode env req st)) = orders st
        \<and> menuCodes (snd (post_orders_create expireCode env req st)) = menuCodes st)
   \<and> (fst (post_orders_create expireCode env req st) = Created ord c e \<longrightarrow>
        orders (snd (post_orders_create expireCode env req st)) = orders st @ [ord]
        \<and> menuCodes (snd (post_orders_create expireCode env req st))
            = (case expireCode (body_menuCode req) (env_now env) (menuCodes st) of
                 None \<Rightarrow> menuCodes st | Some cs \<Rightarrow> cs))"
  using post_orders_create_stocks[of expireCode env req st]
    post_orders_create_not_created[of expireCode env req st]
    post_orders_create_Created[of expireCode env req st ord c e]
  by blast

text \<open>An order on the unknown code ZZZZZ creates nothing and changes no menu code.\<close>

lemma post_orders_create_unknown_code:
  "post_orders_create expireCode sample_env (guest_request\<lparr>body_menuCode := ''zzzzz''\<rparr>)
     open_store = (Bad_request ''Invalid menu code'', open_store)"
  by (simp add: post_orders_create_def body_valid_def sample_defs toUpperCase_zzzzz)

text \<open>
  C1 fails on the code. A guest orders strawberry with mango on the fresh code ABCDE, with
  100 strawberry and 1 mango in stock. The order is created and stored, whatever
  \<open>expireCode\<close> is, but the strawberry and mango stock are still 100 and 1: the handler
  never calls \<open>reduceStock\<close>. With the call of \<open>MenuCode.expireCode\<close> throwing, as it does
  against the MenuCode model, the usage count of the code is still 0 and its \<open>usedBy\<close> list
  still empty: the handler never calls \<open>validateAndUse\<close>. On the same documents
  \<open>reduceStock\<close> takes one strawberry and one mango, and \<open>validateAndUse\<close> raises the
  usage count to 1 and appends the order to \<open>usedBy\<close>.
\<close>

theorem post_orders_create_skips_stock_and_usage:
  "is_created (fst (post_orders_create expireCode sample_env guest_request open_store))
   \<and> map quantity (stocks open_store) = [100, 1]
   \<and> map quantity
        (stocks (snd (post_orders_create expireCode sample_env guest_request open_store)))
      = [100, 1]
   \<and> map usageCount (menuCodes open_store) = [0]
   \<and> map usageCount
        (menuCodes (snd (post_orders_create expireCode_undefined sample_env guest_request
           open_store))) = [0]
   \<and> map usedBy
        (menuCodes (snd (post_orders_create expireCode_undefined sample_env guest_request
           open_store))) = [[]]
   \<and> length (orders (snd (post_orders_create expireCode sample_env guest_request open_store)))
      = 1
   \<and> reduceStock Flavor ''Strawberry'' 1 (stocks open_store)
      = (Inr (Some (strawberry_stock\<lparr>quantity := 99\<rparr>)),
         [strawberry_stock\<lparr>quantity := 99\<rparr>, mango_stock])
   \<and> reduceStock Topping ''Mango'' 1 (stocks open_store)
      = (Inr (Some (mango_stock\<lparr>quantity := 0\<rparr>)),
         [strawberry_stock, mango_stock\<lparr>quantity := 0\<rparr>])
   \<and> validateAndUse 500 ''abcde'' 1 (menuCodes open_store)
      = (Inr (fresh_code\<lparr>usageCount := 1, usedBy := [(1, 500)]\<rparr>),
         [fresh_code\<lparr>usageCount := 1, usedBy := [(1, 500)]\<rparr>])"
  by (simp add: handler_defs sample_defs toUpperCase_abcde reduceStock_def validateAndUse_def
      split: option.splits)

text \<open>
  With the call of \<open>expireCode\<close> throwing, the guest's order is created and the stock and
  menu-code collections are the ones before the request.
\<close>

theorem post_orders_create_skips_stock_and_usage_witness:
  "is_created (fst (post_orders_create expireCode_undefined sample_env guest_request open_store))
   \<and> stocks (snd (post_orders_create expireCode_undefined sample_env guest_request open_store))
      = [strawberry_stock, mango_stock]
   \<and> menuCodes (snd (post_orders_create expireCode_undefined sample_env guest_request open_store))
      = [fresh_code]"
proof -
  from post_orders_create_skips_stock_and_usage[of expireCode_undefined]
  have c: "is_created (fst (post_orders_create expireCode_undefined sample_env guest_request
             open_store))"
    by simp
  then obtain ord c e where
    "fst (post_orders_create expireCode_undefined sample_env guest_request open_store)
       = Created ord c e"
    by (cases "fst (post_orders_create expireCode_undefined sample_env guest_request open_store)")
       simp_all
  from post_orders_create_Created[OF this]
    post_orders_create_stocks[of expireCode_undefined sample_env guest_request open_store] c
  show ?thesis by (auto simp: open_store_def expireCode_undefined_def)
qed

lemma findOne_map: "findOne q (map h ds) = findOne (\<lambda>d. q (h d)) ds"
  by (induction ds) (auto split: option.splits)

text \<open>The response of the handler does not depend on the usage counts or limits.\<close>

lemma post_orders_create_usage_blind:
  "fst (post_orders_create expireCode env req
          (st\<lparr>menuCodes := map (\<lambda>m. m\<lparr>usageCount := u m, maxUsage := l m\<rparr>) (menuCodes st)\<rparr>))
     = fst (post_orders_create expireCode env req st)"
proof (cases "findOne (\<lambda>m. code m = toUpperCase (body_menuCode req)) (menuCodes st)")
  case None
  then show ?thesis by (simp add: post_orders_create_def findOne_map)
next
  case (Some i)
  then have "i < length (menuCodes st)" by (simp add: findOne_Some_bound)
  then show ?thesis
    using Some
    by (simp add: post_orders_create_def findOne_map new_order_def Let_def
        split: sum.splits prod.splits option.splits)
qed

text \<open>
  C4 fails on the code for the usage limit. The code TEST1 has been used 5 times of 5 and
  is not expired: \<open>validateAndUse\<close> and \<open>canBeUsed\<close> refuse it with the usage-limit
  error, but the creation handler, which checks existence and expiry only, creates the
  order, whatever \<open>expireCode\<close> is.
\<close>

theorem post_orders_create_ignores_usage_limit:
  "is_created (fst (post_orders_create expireCode sample_env
       (guest_request\<lparr>body_menuCode := ''test1''\<rparr>) full_store))
   \<and> usageCount full_code = 5 \<and> maxUsage full_code = 5
   \<and> validateAndUse 500 ''test1'' 1 (menuCodes full_store)
       = (Inl Code_usage_limit_reached, menuCodes full_store)
   \<and> canBeUsed 500 full_code = Inl Code_usage_limit_reached"
  by (simp add: handler_defs sample_defs toUpperCase_test1 validateAndUse_def canBeUsed_def
      split: option.splits)

text \<open>
  With the call of \<open>expireCode\<close> throwing, the order on the used-up code is stored.
\<close>

theorem post_orders_create_ignores_usage_limit_witness:
  "length (orders (snd (post_orders_create expireCode_undefined sample_env
       (guest_request\<lparr>body_menuCode := ''test1''\<rparr>) full_store))) = 1
   \<and> map usageCount (menuCodes full_store) = [5]
   \<and> map maxUsage (menuCodes full_store) = [5]"
proof -
  from post_orders_create_ignores_usage_limit[of expireCode_undefined]
  have "is_created (fst (post_orders_create expireCode_undefined sample_env
       (guest_request\<lparr>body_menuCode := ''test1''\<rparr>) full_store))" by simp
  then obtain ord c e where "fst (post_orders_create expireCode_undefined sample_env
       (guest_request\<lparr>body_menuCode := ''test1''\<rparr>) full_store) = Created ord c e"
    by (cases "fst (post_orders_create expireCode_undefined sample_env
       (guest_request\<lparr>body_menuCode := ''test1''\<rparr>) full_store)") simp_all
  from post_orders_create_Created[OF this]
  show ?thesis by (auto simp: full_store_def full_code_def)
qed

text \<open>
  C9. Every order the creation handler answers with has the payment status Paid, never
  Unpaid, and is the order appended to the collection. Loyalty accrual is not gated on
  payment: for a request of a user whose document exists, the stamp is added to that
  user's card, the earned-free-drink flag of the response is the one the stamping returned,
  and the order is appended to the user's history. A guest's order changes no user.
\<close>

theorem created_order_is_paid:
  assumes "fst (post_orders_create expireCode env req st) = Created ord c e"
  shows "paymentStatus ord = Paid
       \<and> paymentStatus ord \<noteq> Unpaid
       \<and> orders (snd (post_orders_create expireCode env req st)) = orders st @ [ord]
       \<and> (req_user req = None \<longrightarrow>
            \<not> e \<and> users (snd (post_orders_create expireCode env req st)) = users st)
       \<and> (req_user req = Some u \<and> findOne (\<lambda>d. user_ident d = u) (users st) = Some i \<longrightarrow>
            e = fst (addLoyaltyStamp (users st ! i))
            \<and> loyaltyCard (users (snd (post_orders_create expireCode env req st)) ! i)
                = loyaltyCard (snd (addLoyaltyStamp (users st ! i)))
            \<and> orderHistory (users (snd (post_orders_create expireCode env req st)) ! i)
                = orderHistory (users st ! i) @ [ident ord])"
proof -
  from post_orders_create_Created[OF assms] obtain k where
    k: "findOne (\<lambda>m. code m = toUpperCase (body_menuCode req)) (menuCodes st) = Some k"
    and sv: "save_order (env_orderId env)
            (fst (snd (loyalty_step (req_user req)
               (snd (calculateTotal (new_order env req (menuCodes st ! k)))) (users st))))
            (orders st) = Inr (ord, orders st @ [ord])"
    and e: "e = fst (loyalty_step (req_user req)
               (snd (calculateTotal (new_order env req (menuCodes st ! k)))) (users st))"
    and os: "orders (snd (post_orders_create expireCode env req st)) = orders st @ [ord]"
    and us: "users (snd (post_orders_create expireCode env req st))
           = snd (snd (loyalty_step (req_user req)
               (snd (calculateTotal (new_order env req (menuCodes st ! k)))) (users st)))"
    by blast
  let ?o1 = "snd (calculateTotal (new_order env req (menuCodes st ! k)))"
  have paid: "paymentStatus ord = Paid"
    using save_order_fields(1)[OF sv]
    by (simp add: loyalty_step_fields calculateTotal_fields new_order_fields)
  have idt: "ident ord = ident ?o1"
    using save_order_fields(4)[OF sv] by (simp add: loyalty_step_fields)
  have guest: "req_user req = None \<longrightarrow>
            \<not> e \<and> users (snd (post_orders_create expireCode env req st)) = users st"
    using e us by (simp add: loyalty_step_guest)
  have member: "req_user req = Some u \<and> findOne (\<lambda>d. user_ident d = u) (users st) = Some i \<longrightarrow>
            e = fst (addLoyaltyStamp (users st ! i))
            \<and> loyaltyCard (users (snd (post_orders_create expireCode env req st)) ! i)
                = loyaltyCard (snd (addLoyaltyStamp (users st ! i)))
            \<and> orderHistory (users (snd (post_orders_create expireCode env req st)) ! i)
                = orderHistory (users st ! i) @ [ident ord]"
  proof
    assume h: "req_user req = Some u \<and> findOne (\<lambda>d. user_ident d = u) (users st) = Some i"
    then have f: "findOne (\<lambda>d. user_ident d = u) (users st) = Some i" by simp
    show "e = fst (addLoyaltyStamp (users st ! i))
            \<and> loyaltyCard (users (snd (post_orders_create expireCode env req st)) ! i)
                = loyaltyCard (snd (addLoyaltyStamp (users st ! i)))
            \<and> orderHistory (users (snd (post_orders_create expireCode env req st)) ! i)
                = orderHistory (users st ! i) @ [ident ord]"
      using h e us idt loyalty_step_member(1,3,4)[OF f, of ?o1] by simp
  qed
  from paid os guest member show ?thesis by simp
qed

text \<open>
  C10. The cup size of a created order is the cup size of the menu code document that the
  lookup of the request's code found; and the handler's result, response and store, is the
  same whatever cup size the request body carries.
\<close>

theorem created_order_cupSize:
  "(fst (post_orders_create expireCode env req st) = Created ord c e \<longrightarrow>
      (\<exists>i. findOne (\<lambda>m. code m = toUpperCase (body_menuCode req)) (menuCodes st) = Some i
          \<and> order_doc.cupSize ord = menu_code_doc.cupSize (menuCodes st ! i)))
   \<and> post_orders_create expireCode env (req\<lparr>body_cupSize := x\<rparr>) st
       = post_orders_create expireCode env req st"
proof (intro conjI impI)
  assume a: "fst (post_orders_create expireCode env req st) = Created ord c e"
  from post_orders_create_Created[OF a] obtain k where
    k: "findOne (\<lambda>m. code m = toUpperCase (body_menuCode req)) (menuCodes st) = Some k"
    and sv: "save_order (env_orderId env)
            (fst (snd (loyalty_step (req_user req)
               (snd (calculateTotal (new_order env req (menuCodes st ! k)))) (users st))))
            (orders st) = Inr (ord, orders st @ [ord])"
    by blast
  have "order_doc.cupSize ord = menu_code_doc.cupSize (menuCodes st ! k)"
    using save_order_fields(2)[OF sv]
    by (simp add: loyalty_step_fields calculateTotal_fields new_order_fields)
  with k show "\<exists>i. findOne (\<lambda>m. code m = toUpperCase (body_menuCode req)) (menuCodes st) = Some i
          \<and> order_doc.cupSize ord = menu_code_doc.cupSize (menuCodes st ! i)" by blast
next
  let ?req = "req\<lparr>body_cupSize := x\<rparr>"
  have bv: "body_valid ?req = body_valid req" by (simp add: body_valid_def)
  have no: "new_order env ?req codeDoc = new_order env req codeDoc" for codeDoc
    by (simp add: new_order_def)
  show "post_orders_create expireCode env ?req st = post_orders_create expireCode env req st"
  proof (cases rule: post_orders_create_cases[of req expireCode env st])
    case invalid
    then show ?thesis
      using post_orders_create_invalid[of ?req expireCode env st] bv by simp
  next
    case no_code
    then show ?thesis
      using post_orders_create_no_code[of ?req st expireCode env] bv by simp
  next
    case (expired i)
    then show ?thesis
      using post_orders_create_expired[of ?req st i env expireCode] bv by simp
  next
    case (save_failed i err)
    then show ?thesis
      using post_orders_create_save_failed[of ?req st i env err expireCode] bv no by simp
  next
    case (saved i sv os)
    then show ?thesis
      using post_orders_create_saved[of ?req st i env sv os expireCode] bv no
      by (simp split: option.splits)
  qed
qed

text \<open>
  The member 42 orders on the code ABCDE: the order is Paid, the card goes from 3 to 4
  stamps and the order enters the member's history.
\<close>

theorem created_order_is_paid_witness:
  "paymentStatus ((snd (calculateTotal (new_order sample_env
       (guest_request\<lparr>req_user := Some 42\<rparr>) fresh_code)))\<lparr>orderId := Some ''ORD1''\<rparr>) = Paid
   \<and> map (\<lambda>d. stamps (loyaltyCard d)) (users (snd (post_orders_create expireCode_undefined
       sample_env (guest_request\<lparr>req_user := Some 42\<rparr>) open_store))) = [4]
   \<and> map orderHistory (users (snd (post_orders_create expireCode_undefined
       sample_env (guest_request\<lparr>req_user := Some 42\<rparr>) open_store))) = [[1]]"
proof -
  let ?req = "guest_request\<lparr>req_user := Some 42\<rparr>"
  let ?ord = "(snd (calculateTotal (new_order sample_env ?req fresh_code)))\<lparr>orderId := Some ''ORD1''\<rparr>"
  have ok: "fst (post_orders_create expireCode_undefined sample_env ?req open_store)
              = Created ?ord ''#AB12C'' False"
    by (simp add: handler_defs sample_defs toUpperCase_abcde)
  have who: "req_user ?req = Some 42
      \<and> findOne (\<lambda>d. user_ident d = 42) (users open_store) = Some 0"
    by (simp add: sample_defs)
  have len: "length (users (snd (post_orders_create expireCode_undefined sample_env ?req open_store))) = 1"
    by (simp add: handler_defs sample_defs toUpperCase_abcde)
  from created_order_is_paid[OF ok, of 42 0] who
  have "paymentStatus ?ord = Paid"
    and "stamps (loyaltyCard (users (snd (post_orders_create expireCode_undefined sample_env ?req
            open_store)) ! 0)) = 4"
    and "orderHistory (users (snd (post_orders_create expireCode_undefined sample_env ?req
            open_store)) ! 0) = [1]"
    by (simp_all add: sample_defs addLoyaltyStamp_def new_order_def calculateTotal_def Let_def)
  with len show ?thesis
    by (cases "users (snd (post_orders_create expireCode_undefined sample_env ?req open_store))")
       simp_all
qed

text \<open>
  The guest sends the cup size L with the code ABCDE, which is bound to M: the order is an
  M, and the request without any cup size has the same result.
\<close>

theorem created_order_cupSize_witness:
  "order_doc.cupSize ((snd (calculateTotal (new_order sample_env guest_request fresh_code)))
       \<lparr>orderId := Some ''ORD1''\<rparr>) = M
   \<and> body_cupSize guest_request = Some ''L''
   \<and> post_orders_create expireCode_undefined sample_env (guest_request\<lparr>body_cupSize := None\<rparr>)
        open_store
      = post_orders_create expireCode_undefined sample_env guest_request open_store"
proof -
  let ?ord = "(snd (calculateTotal (new_order sample_env guest_request fresh_code)))\<lparr>orderId := Some ''ORD1''\<rparr>"
  have ok: "fst (post_orders_create expireCode_undefined sample_env guest_request open_store)
              = Created ?ord ''#AB12C'' False"
    by (simp add: handler_defs sample_defs toUpperCase_abcde)
  have f: "findOne (\<lambda>m. code m = toUpperCase (body_menuCode guest_request)) (menuCodes open_store)
             = Some 0"
    by (simp add: sample_defs toUpperCase_abcde)
  from created_order_cupSize[of expireCode_undefined sample_env guest_request open_store
        ?ord "''#AB12C''" False None] ok f
  have "order_doc.cupSize ?ord = menu_code_doc.cupSize (menuCodes open_store ! 0)"
    and "post_orders_create expireCode_undefined sample_env (guest_request\<lparr>body_cupSize := None\<rparr>)
        open_store
      = post_orders_create expireCode_undefined sample_env guest_request open_store"
    by auto
  then show ?thesis by (simp add: sample_defs)
qed

section \<open>Orders: the price of every created order\<close>

lemma calculateTotal_priced:
  assumes "basePrice (pricing this) = 60"
  shows "pricing (snd (calculateTotal this)) =
           \<lparr>basePrice = 60,
            sizePrice = sizePrices (order_doc.cupSize (snd (calculateTotal this))),
            toppingsPrice = 10 * int (length (toppings (snd (calculateTotal this)))),
            total' = Some (if isFreeDrink (snd (calculateTotal this)) then 0
               else 60 + sizePrices (order_doc.cupSize (snd (calculateTotal this)))
                    + 10 * int (length (toppings (snd (calculateTotal this)))))\<rparr>"
  using assms by (cases "pricing this") (simp add: calculateTotal_def Let_def)

lemma loyalty_step_priced:
  assumes "pricing ord =
           \<lparr>basePrice = 60,
            sizePrice = sizePrices (order_doc.cupSize ord),
            toppingsPrice = 10 * int (length (toppings ord)),
            total' = Some (if isFreeDrink ord then 0
               else 60 + sizePrices (order_doc.cupSize ord) + 10 * int (length (toppings ord)))\<rparr>"
  shows "pricing (fst (snd (loyalty_step who ord us))) =
           \<lparr>basePrice = 60,
            sizePrice = sizePrices (order_doc.cupSize (fst (snd (loyalty_step who ord us)))),
            toppingsPrice = 10 * int (length (toppings (fst (snd (loyalty_step who ord us))))),
            total' = Some (if isFreeDrink (fst (snd (loyalty_step who ord us))) then 0
               else 60 + sizePrices (order_doc.cupSize (fst (snd (loyalty_step who ord us))))
                    + 10 * int (length (toppings (fst (snd (loyalty_step who ord us))))))\<rparr>"
proof -
  have b: "basePrice (pricing (ord\<lparr>isFreeDrink := True\<rparr>)) = 60"
    using assms by simp
  have "fst (snd (loyalty_step who ord us)) = ord
       \<or> fst (snd (loyalty_step who ord us)) = snd (calculateTotal (ord\<lparr>isFreeDrink := True\<rparr>))"
    by (simp add: loyalty_step_def Let_def split: option.splits)
  then show ?thesis
  proof
    assume "fst (snd (loyalty_step who ord us)) = ord"
    then show ?thesis using assms by simp
  next
    assume "fst (snd (loyalty_step who ord us)) = snd (calculateTotal (ord\<lparr>isFreeDrink := True\<rparr>))"
    then show ?thesis using calculateTotal_priced[OF b] by simp
  qed
qed

lemma created_order_priced:
  assumes "fst (post_orders_create expireCode env req st) = Created ord c e"
  shows "pricing ord =
           \<lparr>basePrice = 60,
            sizePrice = sizePrices (order_doc.cupSize ord),
            toppingsPrice = 10 * int (length (toppings ord)),
            total' = Some (if isFreeDrink ord then 0
               else 60 + sizePrices (order_doc.cupSize ord) + 10 * int (length (toppings ord)))\<rparr>"
proof -
  from post_orders_create_Created[OF assms] obtain k where
    sv: "save_order (env_orderId env)
            (fst (snd (loyalty_step (req_user req)
               (snd (calculateTotal (new_order env req (menuCodes st ! k)))) (users st))))
            (orders st) = Inr (ord, orders st @ [ord])"
    by blast
  have b: "basePrice (pricing (new_order env req (menuCodes st ! k))) = 60"
    by (simp add: new_order_def)
  note priced = loyalty_step_priced[OF calculateTotal_priced[OF b], of "req_user req" "users st"]
  show ?thesis
    using save_order_fields[OF sv] priced by simp
qed

text \<open>
  C2. For an order with the base price 60 (the schema default, and what the creation
  handler sets), \<open>calculateTotal\<close> returns 60 plus the size surcharge (S 0, M 10, L 20)
  plus 10 per topping, or 0 when the order is a free drink; in both cases it records the
  base price, the size price, the toppings price and the returned total in the pricing and
  changes nothing else of the order. Computing the total again gives the same result.
  Every order that the creation handler answers with carries exactly this pricing.
\<close>

theorem calculateTotal_price:
  assumes "basePrice (pricing this) = 60"
  shows "fst (calculateTotal this) =
           (if isFreeDrink this then 0
            else 60 + (case order_doc.cupSize this of S \<Rightarrow> 0 | M \<Rightarrow> 10 | L \<Rightarrow> 20)
                 + 10 * int (length (toppings this)))
       \<and> pricing (snd (calculateTotal this)) =
           \<lparr>basePrice = 60,
            sizePrice = (case order_doc.cupSize this of S \<Rightarrow> 0 | M \<Rightarrow> 10 | L \<Rightarrow> 20),
            toppingsPrice = 10 * int (length (toppings this)),
            total' = Some (fst (calculateTotal this))\<rparr>
       \<and> snd (calculateTotal this) = this\<lparr>pricing := pricing (snd (calculateTotal this))\<rparr>
       \<and> basePrice (pricing (new_order env req codeDoc)) = 60
       \<and> calculateTotal (snd (calculateTotal this)) = calculateTotal this
       \<and> (fst (post_orders_create expireCode env req st) = Created ord c e \<longrightarrow>
            pricing ord =
              \<lparr>basePrice = 60,
               sizePrice = (case order_doc.cupSize ord of S \<Rightarrow> 0 | M \<Rightarrow> 10 | L \<Rightarrow> 20),
               toppingsPrice = 10 * int (length (toppings ord)),
               total' = Some (if isFreeDrink ord then 0
                  else 60 + (case order_doc.cupSize ord of S \<Rightarrow> 0 | M \<Rightarrow> 10 | L \<Rightarrow> 20)
                       + 10 * int (length (toppings ord)))\<rparr>)"
proof -
  have v: "fst (calculateTotal this) =
           (if isFreeDrink this then 0
            else 60 + (case order_doc.cupSize this of S \<Rightarrow> 0 | M \<Rightarrow> 10 | L \<Rightarrow> 20)
                 + 10 * int (length (toppings this)))"
    using assms by (simp add: calculateTotal_value sizePrices_def)
  have p: "pricing (snd (calculateTotal this)) =
           \<lparr>basePrice = 60,
            sizePrice = (case order_doc.cupSize this of S \<Rightarrow> 0 | M \<Rightarrow> 10 | L \<Rightarrow> 20),
            toppingsPrice = 10 * int (length (toppings this)),
            total' = Some (fst (calculateTotal this))\<rparr>"
    using assms by (cases "pricing this") (simp add: calculateTotal_pricing sizePrices_def)
  have n: "basePrice (pricing (new_order env req codeDoc)) = 60"
    by (simp add: new_order_def)
  have i: "calculateTotal (snd (calculateTotal this)) = calculateTotal this"
    using assms by (simp add: calculateTotal_def Let_def)
  have r: "fst (post_orders_create expireCode env req st) = Created ord c e \<longrightarrow>
            pricing ord =
              \<lparr>basePrice = 60,
               sizePrice = (case order_doc.cupSize ord of S \<Rightarrow> 0 | M \<Rightarrow> 10 | L \<Rightarrow> 20),
               toppingsPrice = 10 * int (length (toppings ord)),
               total' = Some (if isFreeDrink ord then 0
                  else 60 + (case order_doc.cupSize ord of S \<Rightarrow> 0 | M \<Rightarrow> 10 | L \<Rightarrow> 20)
                       + 10 * int (length (toppings ord)))\<rparr>"
    using created_order_priced[of expireCode env req st ord c e]
    by (simp add: sizePrices_def)
  from v p n i r calculateTotal_frame[of this] show ?thesis by blast
qed

text \<open>
  A large cup with three toppings costs 60 + 20 + 30 = 110; the same order as a free drink
  costs 0 and still records 60, 20 and 30. The guest's order on the code ABCDE, a medium
  cup with one topping, is created with 60 + 10 + 10 = 80.
\<close>

theorem calculateTotal_price_witness:
  "fst (calculateTotal (completed_order\<lparr>toppings :=
       [\<lparr>name = ''Mango'', points = 0\<rparr>, \<lparr>name = ''Apple'', points = 0\<rparr>,
        \<lparr>name = ''Cherry'', points = 0\<rparr>]\<rparr>)) = 110
   \<and> fst (calculateTotal (completed_order\<lparr>isFreeDrink := True, toppings :=
       [\<lparr>name = ''Mango'', points = 0\<rparr>, \<lparr>name = ''Apple'', points = 0\<rparr>,
        \<lparr>name = ''Cherry'', points = 0\<rparr>]\<rparr>)) = 0
   \<and> pricing (snd (calculateTotal (completed_order\<lparr>isFreeDrink := True, toppings :=
       [\<lparr>name = ''Mango'', points = 0\<rparr>, \<lparr>name = ''Apple'', points = 0\<rparr>,
        \<lparr>name = ''Cherry'', points = 0\<rparr>]\<rparr>)))
      = \<lparr>basePrice = 60, sizePrice = 20, toppingsPrice = 30, total' = Some 0\<rparr>
   \<and> fst (post_orders_create expireCode_undefined sample_env guest_request open_store)
      = Created ((snd (calculateTotal (new_order sample_env guest_request fresh_code)))
                   \<lparr>orderId := Some ''ORD1''\<rparr>) ''#AB12C'' False
   \<and> pricing ((snd (calculateTotal (new_order sample_env guest_request fresh_code)))
                   \<lparr>orderId := Some ''ORD1''\<rparr>)
      = \<lparr>basePrice = 60, sizePrice = 10, toppingsPrice = 10, total' = Some 80\<rparr>"
proof -
  let ?ts = "[\<lparr>name = ''Mango'', points = 0\<rparr>, \<lparr>name = ''Apple'', points = 0\<rparr>,
        \<lparr>name = ''Cherry'', points = 0\<rparr>]"
  let ?ord = "(snd (calculateTotal (new_order sample_env guest_request fresh_code)))
                \<lparr>orderId := Some ''ORD1''\<rparr>"
  have h1: "basePrice (pricing (completed_order\<lparr>toppings := ?ts\<rparr>)) = 60"
    by (simp add: completed_order_def)
  have h2: "basePrice (pricing (completed_order\<lparr>isFreeDrink := True, toppings := ?ts\<rparr>)) = 60"
    by (simp add: completed_order_def)
  have ok: "fst (post_orders_create expireCode_undefined sample_env guest_request open_store)
              = Created ?ord ''#AB12C'' False"
    by (simp add: handler_defs sample_defs toUpperCase_abcde)
  have shape: "order_doc.cupSize ?ord = M \<and> length (toppings ?ord) = 1 \<and> \<not> isFreeDrink ?ord"
    by (simp add: new_order_def calculateTotal_def Let_def sample_defs)
  from calculateTotal_price[OF h1]
    calculateTotal_price[OF h2, where expireCode = expireCode_undefined and env = sample_env
      and req = guest_request and st = open_store and ord = ?ord and c = "''#AB12C''"
      and e = False] ok shape
  show ?thesis by (simp add: completed_order_def)
qed

end
